theory Spec2Isabelle
  imports Main "HOL-Library.Word"
begin

section \<open>SocialBondFhe: data model\<close>

text \<open>
  The contract \<^verbatim>\<open>SocialBondFhe\<close> (Solidity 0.8.24) is embedded as explicit state passing.
  A \<^verbatim>\<open>uint256\<close> is a 256-bit word, an \<^verbatim>\<open>address\<close> a 160-bit word. An \<^verbatim>\<open>euint32\<close> is an
  opaque ciphertext handle; the FHE library declares it as a wrapped \<^verbatim>\<open>bytes32\<close>, and the
  contract stores the running total in a \<^verbatim>\<open>uint256\<close> field, so a handle is a 256-bit word
  as well. \<^verbatim>\<open>bytes\<close> is a list of bytes.
\<close>

type_synonym uint256 = "256 word"
type_synonym uint32 = "32 word"
type_synonym address = "160 word"
type_synonym bytes32 = "256 word"
type_synonym euint32 = "256 word"
type_synonym bytes = "8 word list"

record DecryptionContext =
  batchId :: uint256
  stateHash :: bytes32
  processed :: bool

record Bond =
  encryptedAmount :: euint32
  encryptedMaturity :: euint32

record Batch =
  totalEncryptedAmount :: uint256
  bondCount :: uint256
  finalized :: bool

datatype event =
    OwnershipTransferred address address
  | ProviderAdded address
  | ProviderRemoved address
  | CooldownSecondsChanged uint256 uint256
  | Paused address
  | Unpaused address
  | BatchOpened uint256
  | BatchClosed uint256
  | BondSubmitted address uint256 uint256
  | DecryptionRequested uint256 uint256
  | DecryptionCompleted uint256 uint256 uint256 uint256

text \<open>
  The custom errors of the contract, and the two reverts that Solidity itself raises in the
  code: \<open>Panic\<close> for an overflow of checked arithmetic (\<^verbatim>\<open>++\<close> and \<^verbatim>\<open>+\<close> on \<^verbatim>\<open>uint256\<close>),
  \<open>DecodeError\<close> for an \<^verbatim>\<open>abi.decode\<close> of malformed data.
\<close>

datatype error =
    NotOwner
  | NotProvider
  | PausedState
  | CooldownActive
  | BatchNotOpen
  | BatchAlreadyOpen
  | InvalidBatch
  | InvalidCooldown
  | ReplayAttempt
  | StateMismatch
  | InvalidProof
  | Panic
  | DecodeError

text \<open>
  The storage of the contract, field by field as declared, and the log of emitted events
  (oldest first). A mapping is a total function: an unwritten slot reads as the zero value.
\<close>

record contract =
  owner :: address
  providers :: "address \<Rightarrow> bool"
  lastSubmissionTime :: "address \<Rightarrow> uint256"
  lastDecryptionRequestTime :: "address \<Rightarrow> uint256"
  cooldownSeconds :: uint256
  paused :: bool
  currentBatchId :: uint256
  batchOpen :: bool
  decryptionContexts :: "uint256 \<Rightarrow> DecryptionContext"
  bonds :: "uint256 \<Rightarrow> Bond"
  totalBonds :: uint256
  batches :: "uint256 \<Rightarrow> Batch"
  events :: "event list"

text \<open>
  The primitives the contract imports and does not define: the operations of the FHE
  library on handles, its proof check, and the hash of the EVM. They are parameters of the
  model, functions of their arguments; every theorem holds for whatever functions stand
  here, and a theorem that needs a property of one of them states it as a hypothesis.
\<close>

record prims =
  fhe_add :: "euint32 \<Rightarrow> euint32 \<Rightarrow> euint32"
  fhe_asEuint32 :: "uint256 \<Rightarrow> euint32"
  fhe_toBytes32 :: "euint32 \<Rightarrow> bytes32"
  fhe_isInitialized :: "euint32 \<Rightarrow> bool"
  fhe_checkSignatures :: "uint256 \<Rightarrow> bytes \<Rightarrow> bytes \<Rightarrow> bool"
  keccak256 :: "bytes \<Rightarrow> bytes32"

section \<open>Solidity built-ins used by the contract\<close>

text \<open>Checked addition of Solidity 0.8: an overflow reverts with a panic.\<close>

definition checked_add :: "uint256 \<Rightarrow> uint256 \<Rightarrow> error + uint256" where
  "checked_add a b = (if unat a + unat b < 2 ^ 256 then Inr (a + b) else Inl Panic)"

text \<open>Big-endian bytes: \<open>be_bytes n v\<close> is the value \<open>v\<close> on \<open>n\<close> bytes, \<open>be_nat\<close> reads bytes back.\<close>

fun be_bytes :: "nat \<Rightarrow> nat \<Rightarrow> bytes" where
  "be_bytes 0 v = []"
| "be_bytes (Suc n) v = be_bytes n (v div 256) @ [of_nat (v mod 256)]"

definition be_nat :: "bytes \<Rightarrow> nat" where
  "be_nat bs = foldl (\<lambda>acc b. acc * 256 + unat b) 0 bs"

definition abi_word :: "uint256 \<Rightarrow> bytes" where
  "abi_word w = be_bytes 32 (unat w)"

text \<open>
  \<^verbatim>\<open>abi.encode(cts, address(this))\<close> for \<^verbatim>\<open>bytes32[] cts\<close>: the head holds the offset of the
  dynamic array (two words, 0x40) and the address left-padded to a word; the tail holds the
  length of the array and then its elements.
\<close>

definition abi_encode_cts :: "bytes32 list \<Rightarrow> address \<Rightarrow> bytes" where
  "abi_encode_cts cts a =
     abi_word 64 @ abi_word (ucast a) @ abi_word (of_nat (length cts)) @ concat (map abi_word cts)"

text \<open>
  \<^verbatim>\<open>abi.decode(cleartexts, (uint32, uint32))\<close>: two words are read; the call reverts when
  fewer than 64 bytes are there or when a word does not fit 32 bits.
\<close>

definition abi_decode_uint32_pair :: "bytes \<Rightarrow> (uint32 \<times> uint32) option" where
  "abi_decode_uint32_pair bs =
     (if length bs < 64 then None
      else (let a = be_nat (take 32 bs); b = be_nat (take 32 (drop 32 bs))
            in if a < 2 ^ 32 \<and> b < 2 ^ 32 then Some (of_nat a, of_nat b) else None))"

section \<open>The contract\<close>

definition emit :: "event \<Rightarrow> contract \<Rightarrow> contract" where
  "emit e s = s\<lparr>events := events s @ [e]\<rparr>"

text \<open>The constructor: every field has its zero value but the owner and the cooldown.\<close>

definition constructor :: "address \<Rightarrow> contract" where
  "constructor sender =
     emit (OwnershipTransferred 0 sender)
       \<lparr>owner = sender,
        providers = (\<lambda>_. False),
        lastSubmissionTime = (\<lambda>_. 0),
        lastDecryptionRequestTime = (\<lambda>_. 0),
        cooldownSeconds = 60,
        paused = False,
        currentBatchId = 0,
        batchOpen = False,
        decryptionContexts = (\<lambda>_. \<lparr>batchId = 0, stateHash = 0, processed = False\<rparr>),
        bonds = (\<lambda>_. \<lparr>encryptedAmount = 0, encryptedMaturity = 0\<rparr>),
        totalBonds = 0,
        batches = (\<lambda>_. \<lparr>totalEncryptedAmount = 0, bondCount = 0, finalized = False\<rparr>),
        events = []\<rparr>"

text \<open>
  Every external function takes \<^verbatim>\<open>msg.sender\<close> (and \<^verbatim>\<open>block.timestamp\<close> where it reads it)
  and returns the error of the revert or the new state. The modifiers are checked in the
  order in which the function lists them.
\<close>

definition transferOwnership :: "address \<Rightarrow> address \<Rightarrow> contract \<Rightarrow> error + contract" where
  "transferOwnership sender newOwner s =
     (if sender \<noteq> owner s then Inl NotOwner
      else Inr (emit (OwnershipTransferred (owner s) newOwner) (s\<lparr>owner := newOwner\<rparr>)))"

definition addProvider :: "address \<Rightarrow> address \<Rightarrow> contract \<Rightarrow> error + contract" where
  "addProvider sender provider s =
     (if sender \<noteq> owner s then Inl NotOwner
      else Inr (emit (ProviderAdded provider) (s\<lparr>providers := (providers s)(provider := True)\<rparr>)))"

definition removeProvider :: "address \<Rightarrow> address \<Rightarrow> contract \<Rightarrow> error + contract" where
  "removeProvider sender provider s =
     (if sender \<noteq> owner s then Inl NotOwner
      else Inr (emit (ProviderRemoved provider) (s\<lparr>providers := (providers s)(provider := False)\<rparr>)))"

definition setCooldownSeconds :: "address \<Rightarrow> uint256 \<Rightarrow> contract \<Rightarrow> error + contract" where
  "setCooldownSeconds sender newCooldownSeconds s =
     (if sender \<noteq> owner s then Inl NotOwner
      else if newCooldownSeconds = 0 then Inl InvalidCooldown
      else Inr (emit (CooldownSecondsChanged (cooldownSeconds s) newCooldownSeconds)
                  (s\<lparr>cooldownSeconds := newCooldownSeconds\<rparr>)))"

definition pause :: "address \<Rightarrow> contract \<Rightarrow> error + contract" where
  "pause sender s =
     (if sender \<noteq> owner s then Inl NotOwner
      else if paused s then Inl PausedState
      else Inr (emit (Paused sender) (s\<lparr>paused := True\<rparr>)))"

definition unpause :: "address \<Rightarrow> contract \<Rightarrow> error + contract" where
  "unpause sender s =
     (if sender \<noteq> owner s then Inl NotOwner
      else Inr (emit (Unpaused sender) (s\<lparr>paused := False\<rparr>)))"

definition openBatch :: "address \<Rightarrow> contract \<Rightarrow> error + contract" where
  "openBatch sender s =
     (if sender \<noteq> owner s then Inl NotOwner
      else if paused s then Inl PausedState
      else if batchOpen s then Inl BatchAlreadyOpen
      else (case checked_add (currentBatchId s) 1 of
              Inl e \<Rightarrow> Inl e
            | Inr n \<Rightarrow>
                Inr (emit (BatchOpened n)
                  (s\<lparr>currentBatchId := n,
                     batchOpen := True,
                     batches := (batches s)(n := (batches s n)
                       \<lparr>totalEncryptedAmount := 0, bondCount := 0, finalized := False\<rparr>)\<rparr>))))"

definition closeBatch :: "address \<Rightarrow> contract \<Rightarrow> error + contract" where
  "closeBatch sender s =
     (if sender \<noteq> owner s then Inl NotOwner
      else if paused s then Inl PausedState
      else if \<not> batchOpen s then Inl BatchNotOpen
      else Inr (emit (BatchClosed (currentBatchId s))
             (s\<lparr>batchOpen := False,
                batches := (batches s)(currentBatchId s :=
                  (batches s (currentBatchId s))\<lparr>finalized := True\<rparr>)\<rparr>)))"

text \<open>
  \<^verbatim>\<open>_initIfNeeded(euint32 val)\<close>: when the handle is not initialised the function wraps zero
  as a ciphertext and drops the handle it gets; it assigns nothing. The overload for
  \<^verbatim>\<open>ebool\<close> has the same shape and no caller.
\<close>

definition initIfNeeded :: "prims \<Rightarrow> euint32 \<Rightarrow> contract \<Rightarrow> contract" where
  "initIfNeeded P val s =
     (if \<not> fhe_isInitialized P val then (let unused = fhe_asEuint32 P 0 in s) else s)"

definition submitBond ::
  "prims \<Rightarrow> address \<Rightarrow> uint256 \<Rightarrow> euint32 \<Rightarrow> euint32 \<Rightarrow> contract \<Rightarrow> error + contract" where
  "submitBond P sender now encAmount encMaturity s =
     (if \<not> providers s sender then Inl NotProvider
      else if paused s then Inl PausedState
      else (case checked_add (lastSubmissionTime s sender) (cooldownSeconds s) of
              Inl e \<Rightarrow> Inl e
            | Inr ready \<Rightarrow>
      if now < ready then Inl CooldownActive
      else if \<not> batchOpen s then Inl BatchNotOpen
      else (let s1 = initIfNeeded P encAmount s;
                s2 = initIfNeeded P encMaturity s1
            in (case checked_add (totalBonds s2) 1 of
                  Inl e \<Rightarrow> Inl e
                | Inr bondId \<Rightarrow>
                   (let s3 = s2\<lparr>totalBonds := bondId,
                                bonds := (bonds s2)(bondId :=
                                  \<lparr>encryptedAmount = encAmount, encryptedMaturity = encMaturity\<rparr>)\<rparr>;
                        cur = currentBatchId s3;
                        s4 = s3\<lparr>batches := (batches s3)(cur := (batches s3 cur)
                               \<lparr>totalEncryptedAmount :=
                                  fhe_add P (totalEncryptedAmount (batches s3 cur)) encAmount\<rparr>)\<rparr>
                    in (case checked_add (bondCount (batches s4 cur)) 1 of
                          Inl e \<Rightarrow> Inl e
                        | Inr c \<Rightarrow>
                            Inr (emit (BondSubmitted sender bondId cur)
                              (s4\<lparr>batches := (batches s4)(cur := (batches s4 cur)\<lparr>bondCount := c\<rparr>),
                                  lastSubmissionTime := (lastSubmissionTime s4)(sender := now)\<rparr>))))))))"

text \<open>\<^verbatim>\<open>_hashCiphertexts\<close>: the commitment over the ciphertext list and the contract's address.\<close>

definition hashCiphertexts :: "prims \<Rightarrow> address \<Rightarrow> bytes32 list \<Rightarrow> bytes32" where
  "hashCiphertexts P self cts = keccak256 P (abi_encode_cts cts self)"

text \<open>
  The two-element ciphertext list that both the request and the callback build from a batch:
  the handle of the total, and the handle of the count wrapped as a ciphertext.
\<close>

definition batchCts :: "prims \<Rightarrow> Batch \<Rightarrow> bytes32 list" where
  "batchCts P b =
     [fhe_toBytes32 P (totalEncryptedAmount b), fhe_toBytes32 P (fhe_asEuint32 P (bondCount b))]"

text \<open>
  \<^verbatim>\<open>requestBatchDecryption\<close>. The request id comes from \<^verbatim>\<open>FHE.requestDecryption\<close>, whose counter
  is kept by the library and the oracle: \<open>issued\<close> is the id that call returns.
\<close>

definition requestBatchDecryption ::
  "prims \<Rightarrow> address \<Rightarrow> address \<Rightarrow> uint256 \<Rightarrow> uint256 \<Rightarrow> uint256 \<Rightarrow> contract \<Rightarrow> error + contract" where
  "requestBatchDecryption P self sender now issued bid s =
     (if sender \<noteq> owner s then Inl NotOwner
      else if paused s then Inl PausedState
      else (case checked_add (lastDecryptionRequestTime s sender) (cooldownSeconds s) of
              Inl e \<Rightarrow> Inl e
            | Inr ready \<Rightarrow>
      if now < ready then Inl CooldownActive
      else if bid = 0 \<or> bid > currentBatchId s \<or> \<not> finalized (batches s bid) then Inl InvalidBatch
      else (let cts = batchCts P (batches s bid);
                h = hashCiphertexts P self cts;
                requestId = issued
            in Inr (emit (DecryptionRequested requestId bid)
                 (s\<lparr>decryptionContexts := (decryptionContexts s)(requestId :=
                       \<lparr>batchId = bid, stateHash = h, processed = False\<rparr>),
                    lastDecryptionRequestTime := (lastDecryptionRequestTime s)(sender := now)\<rparr>)))))"

definition myCallback ::
  "prims \<Rightarrow> address \<Rightarrow> uint256 \<Rightarrow> bytes \<Rightarrow> bytes \<Rightarrow> contract \<Rightarrow> error + contract" where
  "myCallback P self requestId cleartexts proof s =
     (if processed (decryptionContexts s requestId) then Inl ReplayAttempt
      else (let bid = batchId (decryptionContexts s requestId);
                currentCts = batchCts P (batches s bid);
                currentStateHash = hashCiphertexts P self currentCts
            in if currentStateHash \<noteq> stateHash (decryptionContexts s requestId) then Inl StateMismatch
               else if \<not> fhe_checkSignatures P requestId cleartexts proof then Inl InvalidProof
               else (case abi_decode_uint32_pair cleartexts of
                       None \<Rightarrow> Inl DecodeError
                     | Some (totalAmount, count) \<Rightarrow>
                         Inr (emit (DecryptionCompleted requestId bid (ucast totalAmount) (ucast count))
                           (s\<lparr>decryptionContexts := (decryptionContexts s)(requestId :=
                                (decryptionContexts s requestId)\<lparr>processed := True\<rparr>)\<rparr>)))))"

section \<open>Transactions and traces\<close>

text \<open>
  A call to the contract with its arguments; a transaction adds the sender and the block
  timestamp. A transaction that reverts leaves the state as it was.
\<close>

datatype call =
    TransferOwnership address
  | AddProvider address
  | RemoveProvider address
  | SetCooldownSeconds uint256
  | Pause
  | Unpause
  | OpenBatch
  | CloseBatch
  | SubmitBond euint32 euint32
  | RequestBatchDecryption uint256 uint256
  | MyCallback uint256 bytes bytes

datatype txn = Txn (txn_sender: address) (txn_timestamp: uint256) (txn_call: call)

fun exec :: "prims \<Rightarrow> address \<Rightarrow> txn \<Rightarrow> contract \<Rightarrow> error + contract" where
  "exec P self (Txn a t (TransferOwnership newOwner)) s = transferOwnership a newOwner s"
| "exec P self (Txn a t (AddProvider p)) s = addProvider a p s"
| "exec P self (Txn a t (RemoveProvider p)) s = removeProvider a p s"
| "exec P self (Txn a t (SetCooldownSeconds n)) s = setCooldownSeconds a n s"
| "exec P self (Txn a t Pause) s = pause a s"
| "exec P self (Txn a t Unpause) s = unpause a s"
| "exec P self (Txn a t OpenBatch) s = openBatch a s"
| "exec P self (Txn a t CloseBatch) s = closeBatch a s"
| "exec P self (Txn a t (SubmitBond encAmount encMaturity)) s = submitBond P a t encAmount encMaturity s"
| "exec P self (Txn a t (RequestBatchDecryption bid issued)) s = requestBatchDecryption P self a t issued bid s"
| "exec P self (Txn a t (MyCallback requestId cleartexts proof)) s = myCallback P self requestId cleartexts proof s"

definition apply_txn :: "prims \<Rightarrow> address \<Rightarrow> contract \<Rightarrow> txn \<Rightarrow> contract" where
  "apply_txn P self s x = (case exec P self x s of Inl e \<Rightarrow> s | Inr s' \<Rightarrow> s')"

definition run :: "prims \<Rightarrow> address \<Rightarrow> contract \<Rightarrow> txn list \<Rightarrow> contract" where
  "run P self s xs = foldl (apply_txn P self) s xs"

section \<open>Notions used by the properties\<close>

text \<open>The zero values of a batch and of a decryption context: what an unwritten slot holds.\<close>

definition empty_batch :: Batch where
  "empty_batch = \<lparr>totalEncryptedAmount = 0, bondCount = 0, finalized = False\<rparr>"

definition empty_context :: DecryptionContext where
  "empty_context = \<lparr>batchId = 0, stateHash = 0, processed = False\<rparr>"

text \<open>The commitment that request and callback compute for a batch.\<close>

definition commitment :: "prims \<Rightarrow> address \<Rightarrow> Batch \<Rightarrow> bytes32" where
  "commitment P self b = hashCiphertexts P self (batchCts P b)"

text \<open>\<open>issues rid x\<close>: the transaction is a decryption request to which the oracle gives the id \<open>rid\<close>.\<close>

fun issues :: "uint256 \<Rightarrow> txn \<Rightarrow> bool" where
  "issues rid (Txn a t (RequestBatchDecryption bid issued)) = (issued = rid)"
| "issues rid x = False"

text \<open>The encrypted amount a transaction submits, when it is a \<^verbatim>\<open>submitBond\<close>.\<close>

fun submitted_amount :: "txn \<Rightarrow> euint32 option" where
  "submitted_amount (Txn a t (SubmitBond encAmount encMaturity)) = Some encAmount"
| "submitted_amount x = None"

text \<open>
  The amounts of the successful \<^verbatim>\<open>submitBond\<close> calls of a trace that went into batch \<open>b\<close>, in
  the order of the calls: a call counts when it does not revert and \<open>b\<close> is the current batch.
\<close>

fun accepted :: "prims \<Rightarrow> address \<Rightarrow> uint256 \<Rightarrow> contract \<Rightarrow> txn list \<Rightarrow> euint32 list" where
  "accepted P self b s [] = []"
| "accepted P self b s (x # xs) =
     (case submitted_amount x of
        Some encAmount \<Rightarrow> (if currentBatchId s = b \<and> \<not> isl (exec P self x s) then [encAmount] else [])
      | None \<Rightarrow> [])
     @ accepted P self b (apply_txn P self s x) xs"

text \<open>A batch is frozen when its id has been allocated and it is not the open batch.\<close>

definition frozen :: "contract \<Rightarrow> uint256 \<Rightarrow> bool" where
  "frozen s b = (b \<le> currentBatchId s \<and> (batchOpen s \<longrightarrow> b \<noteq> currentBatchId s))"

text \<open>
  The invariant of the batch store: no batch beyond the current id has been written, batch 0
  is never written, and the open batch has a non-zero id and is not finalized.
\<close>

definition inv :: "contract \<Rightarrow> bool" where
  "inv s = ((\<forall>b. currentBatchId s < b \<longrightarrow> batches s b = empty_batch) \<and>
            (batchOpen s \<longrightarrow> currentBatchId s \<noteq> 0 \<and> \<not> finalized (batches s (currentBatchId s))) \<and>
            batches s 0 = empty_batch)"

text \<open>
  \<^verbatim>\<open>submitBond\<close> as the specification reads it, with the two \<^verbatim>\<open>_initIfNeeded\<close> calls removed;
  claim C9 compares it with \<open>submitBond\<close>.
\<close>

definition submitBond_without_init ::
  "prims \<Rightarrow> address \<Rightarrow> uint256 \<Rightarrow> euint32 \<Rightarrow> euint32 \<Rightarrow> contract \<Rightarrow> error + contract" where
  "submitBond_without_init P sender now encAmount encMaturity s =
     (if \<not> providers s sender then Inl NotProvider
      else if paused s then Inl PausedState
      else (case checked_add (lastSubmissionTime s sender) (cooldownSeconds s) of
              Inl e \<Rightarrow> Inl e
            | Inr ready \<Rightarrow>
      if now < ready then Inl CooldownActive
      else if \<not> batchOpen s then Inl BatchNotOpen
      else (case checked_add (totalBonds s) 1 of
              Inl e \<Rightarrow> Inl e
            | Inr bondId \<Rightarrow>
               (let s3 = s\<lparr>totalBonds := bondId,
                           bonds := (bonds s)(bondId :=
                             \<lparr>encryptedAmount = encAmount, encryptedMaturity = encMaturity\<rparr>)\<rparr>;
                    cur = currentBatchId s3;
                    s4 = s3\<lparr>batches := (batches s3)(cur := (batches s3 cur)
                           \<lparr>totalEncryptedAmount :=
                              fhe_add P (totalEncryptedAmount (batches s3 cur)) encAmount\<rparr>)\<rparr>
                in (case checked_add (bondCount (batches s4 cur)) 1 of
                      Inl e \<Rightarrow> Inl e
                    | Inr c \<Rightarrow>
                        Inr (emit (BondSubmitted sender bondId cur)
                          (s4\<lparr>batches := (batches s4)(cur := (batches s4 cur)\<lparr>bondCount := c\<rparr>),
                              lastSubmissionTime := (lastSubmissionTime s4)(sender := now)\<rparr>)))))))"

section \<open>A concrete instance\<close>

text \<open>
  A deterministic stand-in for the primitives: a handle is the plaintext itself, the
  homomorphic sum is the sum, a proof is valid when it is the single byte 1, and the hash is
  a polynomial in the bytes. The concrete evaluations below use it.
\<close>

definition poly_hash :: "bytes \<Rightarrow> bytes32" where
  "poly_hash bs = foldl (\<lambda>h b. h * 31 + ucast b) 7 bs"

definition plain_prims :: prims where
  "plain_prims =
     \<lparr>fhe_add = (+),
      fhe_asEuint32 = (\<lambda>n. n),
      fhe_toBytes32 = (\<lambda>h. h),
      fhe_isInitialized = (\<lambda>h. h \<noteq> 0),
      fhe_checkSignatures = (\<lambda>requestId cleartexts proof. proof = [1]),
      keccak256 = poly_hash\<rparr>"

text \<open>
  The end-to-end scenario, state by state: the owner (address 1) deploys the contract
  (address 9), registers the provider (address 2) and opens batch 1; the provider submits
  bonds of 100 and of 250; the owner closes the batch and requests its decryption, and the
  oracle issues request 7.
\<close>

definition demo_registered :: contract where
  "demo_registered = apply_txn plain_prims 9 (constructor 1) (Txn 1 100 (AddProvider 2))"

definition demo_open :: contract where
  "demo_open = apply_txn plain_prims 9 demo_registered (Txn 1 100 OpenBatch)"

definition demo_one :: contract where
  "demo_one = apply_txn plain_prims 9 demo_open (Txn 2 100 (SubmitBond 100 12))"

definition demo_two :: contract where
  "demo_two = apply_txn plain_prims 9 demo_one (Txn 2 200 (SubmitBond 250 12))"

definition demo_closed :: contract where
  "demo_closed = apply_txn plain_prims 9 demo_two (Txn 1 300 CloseBatch)"

definition demo_requested :: contract where
  "demo_requested = apply_txn plain_prims 9 demo_closed (Txn 1 400 (RequestBatchDecryption 1 7))"

definition demo_trace :: "txn list" where
  "demo_trace =
     [Txn 1 100 (AddProvider 2), Txn 1 100 OpenBatch, Txn 2 100 (SubmitBond 100 12),
      Txn 2 200 (SubmitBond 250 12), Txn 1 300 CloseBatch, Txn 1 400 (RequestBatchDecryption 1 7)]"

text \<open>
  The submissions of the scenario with two that revert: one inside the cooldown of the
  provider, one after the batch was closed.
\<close>

definition demo_mixed :: "txn list" where
  "demo_mixed =
     [Txn 2 100 (SubmitBond 100 12), Txn 2 120 (SubmitBond 7 12), Txn 2 200 (SubmitBond 250 12),
      Txn 1 300 CloseBatch, Txn 2 400 (SubmitBond 9 12)]"

text \<open>The cleartexts of the scenario: the ABI encoding of the pair (350, 2).\<close>

definition demo_cleartexts :: bytes where
  "demo_cleartexts = abi_word 350 @ abi_word 2"

definition demo_completed :: contract where
  "demo_completed = apply_txn plain_prims 9 demo_requested (Txn 5 500 (MyCallback 7 demo_cleartexts [1]))"

text \<open>After the request, the owner opens batch 2 and the provider submits a bond into it.\<close>

definition demo_next :: contract where
  "demo_next = apply_txn plain_prims 9 demo_requested (Txn 1 600 OpenBatch)"

definition demo_later :: contract where
  "demo_later = apply_txn plain_prims 9 demo_next (Txn 2 700 (SubmitBond 5 5))"

text \<open>The stored total of batch 1 overwritten from outside the contract, after the request.\<close>

definition demo_tampered :: contract where
  "demo_tampered =
     demo_requested\<lparr>batches := (batches demo_requested)(1 :=
       (batches demo_requested 1)\<lparr>totalEncryptedAmount := 351\<rparr>)\<rparr>"

text \<open>The stored count of batch 1 overwritten from outside the contract, after the request.\<close>

definition demo_tampered_count :: contract where
  "demo_tampered_count =
     demo_requested\<lparr>batches := (batches demo_requested)(1 :=
       (batches demo_requested 1)\<lparr>bondCount := 3\<rparr>)\<rparr>"

text \<open>
  After the callback completed, the owner requests batch 1 again and the oracle gives the
  request the id 7 a second time.
\<close>

definition demo_reissued :: contract where
  "demo_reissued = apply_txn plain_prims 9 demo_completed (Txn 1 900 (RequestBatchDecryption 1 7))"

text \<open>The owner pauses the contract after the request.\<close>

definition demo_paused :: contract where
  "demo_paused = apply_txn plain_prims 9 demo_requested (Txn 1 450 Pause)"

section \<open>Basic facts\<close>

lemma checked_add_Inr: "checked_add a b = Inr c \<Longrightarrow> c = a + b \<and> unat c = unat a + unat b"
  by (auto simp: checked_add_def unat_word_ariths split: if_splits)

lemma checked_add_one_less: "checked_add a 1 = Inr c \<Longrightarrow> a < c"
  by (auto dest!: checked_add_Inr simp: word_less_nat_alt)

lemma checked_add_one:
  "checked_add a 1 = Inr c \<Longrightarrow> c = a + 1 \<and> unat (a + 1) = Suc (unat a) \<and> a < a + 1"
  by (auto dest!: checked_add_Inr simp: word_less_nat_alt)

lemma le_checked_succ: "a < a + 1 \<Longrightarrow> b \<le> a \<Longrightarrow> b \<le> a + (1::uint256)"
  by simp

lemma initIfNeeded_same: "initIfNeeded P val s = s"
  by (simp add: initIfNeeded_def)

lemmas op_defs = transferOwnership_def addProvider_def removeProvider_def setCooldownSeconds_def
  pause_def unpause_def openBatch_def closeBatch_def submitBond_def requestBatchDecryption_def
  myCallback_def initIfNeeded_def emit_def

lemma run_Nil: "run P self s [] = s"
  by (simp add: run_def)

lemma run_Cons: "run P self s (x # xs) = run P self (apply_txn P self s x) xs"
  by (simp add: run_def)

lemma commitment_cong:
  "totalEncryptedAmount b = totalEncryptedAmount b' \<Longrightarrow> bondCount b = bondCount b' \<Longrightarrow>
   commitment P self b = commitment P self b'"
  by (simp add: commitment_def batchCts_def)

lemma run_append: "run P self s (xs @ ys) = run P self (run P self s xs) ys"
  by (simp add: run_def)

subsection \<open>The ABI encoding is injective\<close>

lemma length_be_bytes: "length (be_bytes n v) = n"
  by (induction n arbitrary: v) simp_all

lemma unat_byte: "unat (of_nat (v mod 256) :: 8 word) = v mod 256"
  by (simp add: unat_of_nat)

lemma byte_of_nat_inj:
  assumes "(of_nat (v mod 256) :: 8 word) = of_nat (w mod 256)"
  shows "v mod 256 = w mod 256"
proof -
  have "v mod 256 = unat (of_nat (v mod 256) :: 8 word)"
    by (simp only: unat_byte)
  also have "\<dots> = unat (of_nat (w mod 256) :: 8 word)"
    by (simp only: assms)
  also have "\<dots> = w mod 256"
    by (simp only: unat_byte)
  finally show ?thesis .
qed

lemma be_bytes_inj:
  "v < 256 ^ n \<Longrightarrow> w < 256 ^ n \<Longrightarrow> be_bytes n v = be_bytes n w \<Longrightarrow> v = w"
proof (induction n arbitrary: v w)
  case 0
  then show ?case by simp
next
  case (Suc n)
  from Suc.prems(3) have hi: "be_bytes n (v div 256) = be_bytes n (w div 256)"
    and lo: "(of_nat (v mod 256) :: 8 word) = of_nat (w mod 256)"
    by simp_all
  from Suc.prems(1) have "v < 256 ^ n * 256"
    by simp
  then have vd: "v div 256 < 256 ^ n"
    by (rule less_mult_imp_div_less)
  from Suc.prems(2) have "w < 256 ^ n * 256"
    by simp
  then have wd: "w div 256 < 256 ^ n"
    by (rule less_mult_imp_div_less)
  from vd wd hi have d: "v div 256 = w div 256"
    by (rule Suc.IH)
  from lo have m: "v mod 256 = w mod 256"
    by (rule byte_of_nat_inj)
  have "v = v div 256 * 256 + v mod 256"
    by simp
  also have "\<dots> = w div 256 * 256 + w mod 256"
    by (simp only: d m)
  also have "\<dots> = w"
    by simp
  finally show ?case .
qed

lemma length_abi_word: "length (abi_word w) = 32"
  by (simp add: abi_word_def length_be_bytes)

lemma abi_word_inj: "abi_word a = abi_word b \<Longrightarrow> a = b"
proof -
  assume e: "abi_word a = abi_word b"
  have "unat a < 2 ^ 256" "unat b < 2 ^ 256"
    using unsigned_less [of a, where 'a = nat] unsigned_less [of b, where 'a = nat]
    by simp_all
  then have "unat a < 256 ^ 32" "unat b < 256 ^ 32"
    by simp_all
  from this e [unfolded abi_word_def] have "unat a = unat b"
    by (rule be_bytes_inj)
  then show "a = b"
    by (simp add: word_unat_eq_iff)
qed

lemma abi_word_eq_iff: "abi_word a = abi_word b \<longleftrightarrow> a = b"
  by (auto dest: abi_word_inj)

lemma abi_encode_cts_pair_inj:
  "abi_encode_cts [a, b] self = abi_encode_cts [c, d] self \<Longrightarrow> a = c \<and> b = d"
  by (simp add: abi_encode_cts_def length_abi_word abi_word_eq_iff)

text \<open>
  The commitment of the code separates totals and counts as soon as the primitives do: the
  two handle operations are injective and the hash does not collide on the two encodings.
\<close>

lemma commitment_separates:
  assumes "inj (fhe_toBytes32 P)" and "inj (fhe_asEuint32 P)"
    and "inj_on (keccak256 P)
           {abi_encode_cts (batchCts P b) self, abi_encode_cts (batchCts P b') self}"
    and "commitment P self b = commitment P self b'"
  shows "totalEncryptedAmount b = totalEncryptedAmount b' \<and> bondCount b = bondCount b'"
proof -
  from assms(4) have "keccak256 P (abi_encode_cts (batchCts P b) self) =
      keccak256 P (abi_encode_cts (batchCts P b') self)"
    by (simp add: commitment_def hashCiphertexts_def)
  then have "abi_encode_cts (batchCts P b) self = abi_encode_cts (batchCts P b') self"
    by (rule inj_onD [OF assms(3)]) simp_all
  then have "fhe_toBytes32 P (totalEncryptedAmount b) = fhe_toBytes32 P (totalEncryptedAmount b') \<and>
      fhe_toBytes32 P (fhe_asEuint32 P (bondCount b)) = fhe_toBytes32 P (fhe_asEuint32 P (bondCount b'))"
    unfolding batchCts_def by (rule abi_encode_cts_pair_inj)
  with assms(1,2) show ?thesis
    by (simp add: inj_eq)
qed

subsection \<open>Evaluating the concrete instance\<close>

lemma be_bytes_numeral:
  "be_bytes (numeral k) v = be_bytes (pred_numeral k) (v div 256) @ [of_nat (v mod 256)]"
proof -
  have "numeral k = Suc (pred_numeral k)"
    by (rule numeral_eq_Suc)
  then show ?thesis
    by (simp only: be_bytes.simps)
qed

lemma be_bytes_one: "be_bytes 1 v = [of_nat (v mod 256)]"
  by (simp only: One_nat_def be_bytes.simps append_Nil)

lemma demo_cleartexts_decode: "abi_decode_uint32_pair demo_cleartexts = Some (350, 2)"
  by (simp add: abi_decode_uint32_pair_def demo_cleartexts_def abi_word_def
      be_bytes_numeral be_bytes_one be_nat_def)


lemma commitment_plain:
  "commitment plain_prims self b = hashCiphertexts plain_prims self [totalEncryptedAmount b, bondCount b]"
  by (simp add: commitment_def batchCts_def plain_prims_def)

lemma hash_empty_batch: "hashCiphertexts plain_prims 9 [0, 0] \<noteq> 0"
  by (simp add: hashCiphertexts_def abi_encode_cts_def plain_prims_def poly_hash_def abi_word_def
      be_bytes_numeral be_bytes_one)

lemma hash_tampered:
  "hashCiphertexts plain_prims 9 [351, 2] \<noteq> hashCiphertexts plain_prims 9 [350, 2]"
  by (simp add: hashCiphertexts_def abi_encode_cts_def plain_prims_def poly_hash_def abi_word_def
      be_bytes_numeral be_bytes_one)

lemma hash_tampered_count:
  "hashCiphertexts plain_prims 9 [350, 3] \<noteq> hashCiphertexts plain_prims 9 [350, 2]"
  by (simp add: hashCiphertexts_def abi_encode_cts_def plain_prims_def poly_hash_def abi_word_def
      be_bytes_numeral be_bytes_one)

lemma plain_no_collision:
  "inj_on (keccak256 plain_prims) {abi_encode_cts [350, 2] 9, abi_encode_cts [351, 2] 9}"
  "inj_on (keccak256 plain_prims) {abi_encode_cts [350, 2] 9, abi_encode_cts [350, 3] 9}"
  using hash_tampered hash_tampered_count
  by (auto simp: inj_on_def hashCiphertexts_def)

lemma plain_inj: "inj (fhe_toBytes32 plain_prims)" "inj (fhe_asEuint32 plain_prims)"
  by (simp_all add: plain_prims_def inj_def)

lemma batchCts_plain: "batchCts plain_prims b = [totalEncryptedAmount b, bondCount b]"
  by (simp add: batchCts_def plain_prims_def)

lemma plain_signatures:
  "fhe_checkSignatures plain_prims rid cleartexts [1]"
  "\<not> fhe_checkSignatures plain_prims rid cleartexts [0]"
  by (simp_all add: plain_prims_def)

lemma demo_registered_fields:
  "owner demo_registered = 1" "paused demo_registered = False"
  "currentBatchId demo_registered = 0" "batchOpen demo_registered = False"
  "providers demo_registered 2" "providers demo_registered 5 = False" "cooldownSeconds demo_registered = 60"
  "lastSubmissionTime demo_registered 2 = 0" "lastDecryptionRequestTime demo_registered 1 = 0"
  "totalBonds demo_registered = 0" "batches demo_registered b = empty_batch"
  "decryptionContexts demo_registered r = empty_context"
  by (simp_all add: demo_registered_def apply_txn_def addProvider_def emit_def constructor_def
      empty_batch_def empty_context_def)

lemma demo_open_fields:
  "owner demo_open = 1" "paused demo_open = False"
  "currentBatchId demo_open = 1" "batchOpen demo_open"
  "providers demo_open 2" "providers demo_open 5 = False" "cooldownSeconds demo_open = 60"
  "lastSubmissionTime demo_open 2 = 0" "lastDecryptionRequestTime demo_open 1 = 0"
  "totalBonds demo_open = 0" "batches demo_open 1 = empty_batch" "batches demo_open 2 = empty_batch"
  "decryptionContexts demo_open r = empty_context"
  by (simp_all add: demo_open_def apply_txn_def openBatch_def emit_def checked_add_def
      demo_registered_fields empty_batch_def)

lemma demo_one_fields:
  "owner demo_one = 1" "paused demo_one = False"
  "currentBatchId demo_one = 1" "batchOpen demo_one"
  "providers demo_one 2" "providers demo_one 5 = False" "cooldownSeconds demo_one = 60"
  "lastSubmissionTime demo_one 2 = 100" "lastDecryptionRequestTime demo_one 1 = 0"
  "totalBonds demo_one = 1"
  "batches demo_one 1 = \<lparr>totalEncryptedAmount = 100, bondCount = 1, finalized = False\<rparr>"
  "batches demo_one 2 = empty_batch"
  "decryptionContexts demo_one r = empty_context"
  by (simp_all add: demo_one_def apply_txn_def submitBond_def initIfNeeded_same emit_def
      checked_add_def demo_open_fields empty_batch_def plain_prims_def Let_def)

lemma demo_two_fields:
  "owner demo_two = 1" "paused demo_two = False"
  "currentBatchId demo_two = 1" "batchOpen demo_two"
  "providers demo_two 2" "providers demo_two 5 = False" "cooldownSeconds demo_two = 60"
  "lastSubmissionTime demo_two 2 = 200" "lastDecryptionRequestTime demo_two 1 = 0"
  "totalBonds demo_two = 2"
  "batches demo_two 1 = \<lparr>totalEncryptedAmount = 350, bondCount = 2, finalized = False\<rparr>"
  "batches demo_two 2 = empty_batch"
  "decryptionContexts demo_two r = empty_context"
  by (simp_all add: demo_two_def apply_txn_def submitBond_def initIfNeeded_same emit_def
      checked_add_def demo_one_fields plain_prims_def Let_def)

lemma demo_closed_fields:
  "owner demo_closed = 1" "paused demo_closed = False"
  "currentBatchId demo_closed = 1" "batchOpen demo_closed = False"
  "providers demo_closed 2" "providers demo_closed 5 = False" "cooldownSeconds demo_closed = 60"
  "lastSubmissionTime demo_closed 2 = 200" "lastDecryptionRequestTime demo_closed 1 = 0"
  "totalBonds demo_closed = 2"
  "batches demo_closed 1 = \<lparr>totalEncryptedAmount = 350, bondCount = 2, finalized = True\<rparr>"
  "batches demo_closed 2 = empty_batch"
  "decryptionContexts demo_closed r = empty_context"
  by (simp_all add: demo_closed_def apply_txn_def closeBatch_def emit_def demo_two_fields)

lemma demo_requested_fields:
  "owner demo_requested = 1" "paused demo_requested = False"
  "currentBatchId demo_requested = 1" "batchOpen demo_requested = False"
  "providers demo_requested 2" "providers demo_requested 5 = False" "cooldownSeconds demo_requested = 60"
  "lastSubmissionTime demo_requested 2 = 200" "totalBonds demo_requested = 2"
  "lastDecryptionRequestTime demo_requested 1 = 400"
  "batches demo_requested 1 = \<lparr>totalEncryptedAmount = 350, bondCount = 2, finalized = True\<rparr>"
  "batches demo_requested 2 = empty_batch"
  "decryptionContexts demo_requested 7 =
     \<lparr>batchId = 1, stateHash = hashCiphertexts plain_prims 9 [350, 2], processed = False\<rparr>"
  "decryptionContexts demo_requested 8 = empty_context"
  by (simp_all add: demo_requested_def apply_txn_def requestBatchDecryption_def emit_def
      checked_add_def demo_closed_fields batchCts_def plain_prims_def)

lemma demo_open_result: "openBatch 1 demo_registered = Inr demo_open"
proof -
  have "\<not> isl (openBatch 1 demo_registered)"
    by (simp add: openBatch_def demo_registered_fields checked_add_def)
  then show ?thesis
    by (cases "openBatch 1 demo_registered") (simp_all add: demo_open_def apply_txn_def)
qed

lemma demo_requested_result:
  "requestBatchDecryption plain_prims 9 1 400 7 1 demo_closed = Inr demo_requested"
proof -
  have "\<not> isl (requestBatchDecryption plain_prims 9 1 400 7 1 demo_closed)"
    by (simp add: requestBatchDecryption_def demo_closed_fields checked_add_def)
  then show ?thesis
    by (cases "requestBatchDecryption plain_prims 9 1 400 7 1 demo_closed")
      (simp_all add: demo_requested_def apply_txn_def)
qed

lemma demo_trace_run: "run plain_prims 9 (constructor 1) demo_trace = demo_requested"
  by (simp add: demo_trace_def run_def demo_requested_def demo_closed_def demo_two_def
      demo_one_def demo_open_def demo_registered_def)

lemma demo_closed_run: "run plain_prims 9 (constructor 1) (butlast demo_trace) = demo_closed"
  by (simp add: demo_trace_def run_def demo_closed_def demo_two_def
      demo_one_def demo_open_def demo_registered_def)

lemma demo_callback:
  "myCallback plain_prims 9 7 demo_cleartexts [1] demo_requested =
     Inr (emit (DecryptionCompleted 7 1 350 2)
       (demo_requested\<lparr>decryptionContexts := (decryptionContexts demo_requested)(7 :=
          (decryptionContexts demo_requested 7)\<lparr>processed := True\<rparr>)\<rparr>))"
  by (simp add: myCallback_def demo_requested_fields batchCts_def demo_cleartexts_decode)
     (simp add: plain_prims_def)

lemma demo_completed_result:
  "myCallback plain_prims 9 7 demo_cleartexts [1] demo_requested = Inr demo_completed"
  by (simp add: demo_completed_def apply_txn_def demo_callback)

lemma demo_completed_fields:
  "owner demo_completed = 1" "paused demo_completed = False"
  "currentBatchId demo_completed = 1" "cooldownSeconds demo_completed = 60"
  "lastDecryptionRequestTime demo_completed 1 = 400"
  "batches demo_completed 1 = \<lparr>totalEncryptedAmount = 350, bondCount = 2, finalized = True\<rparr>"
  "processed (decryptionContexts demo_completed 7)"
  "events demo_completed = events demo_requested @ [DecryptionCompleted 7 1 350 2]"
  by (simp_all add: demo_completed_def apply_txn_def demo_callback emit_def demo_requested_fields)

lemma demo_reissued_fields:
  "batches demo_reissued 1 = \<lparr>totalEncryptedAmount = 350, bondCount = 2, finalized = True\<rparr>"
  "decryptionContexts demo_reissued 7 =
     \<lparr>batchId = 1, stateHash = hashCiphertexts plain_prims 9 [350, 2], processed = False\<rparr>"
  by (simp_all add: demo_reissued_def apply_txn_def requestBatchDecryption_def emit_def
      checked_add_def demo_completed_fields batchCts_plain hashCiphertexts_def)

lemma demo_reissued_run:
  "run plain_prims 9 (constructor 1)
     (demo_trace @ [Txn 5 500 (MyCallback 7 demo_cleartexts [1]),
                    Txn 1 900 (RequestBatchDecryption 1 7)]) = demo_reissued"
  by (simp only: run_append run_Cons run_Nil demo_trace_run demo_completed_def [symmetric]
      demo_reissued_def [symmetric])

lemma demo_tampered_fields:
  "batches demo_tampered 1 = \<lparr>totalEncryptedAmount = 351, bondCount = 2, finalized = True\<rparr>"
  "decryptionContexts demo_tampered 7 = decryptionContexts demo_requested 7"
  by (simp_all add: demo_tampered_def demo_requested_fields)

lemma demo_tampered_count_fields:
  "batches demo_tampered_count 1 = \<lparr>totalEncryptedAmount = 350, bondCount = 3, finalized = True\<rparr>"
  "decryptionContexts demo_tampered_count 7 = decryptionContexts demo_requested 7"
  by (simp_all add: demo_tampered_count_def demo_requested_fields)

lemma demo_paused_fields:
  "owner demo_paused = 1" "paused demo_paused" "providers demo_paused 2" "providers demo_paused 5 = False"
  "batches demo_paused 1 = \<lparr>totalEncryptedAmount = 350, bondCount = 2, finalized = True\<rparr>"
  "decryptionContexts demo_paused 7 =
     \<lparr>batchId = 1, stateHash = hashCiphertexts plain_prims 9 [350, 2], processed = False\<rparr>"
  by (simp_all add: demo_paused_def apply_txn_def pause_def emit_def demo_requested_fields)

lemma demo_next_fields:
  "owner demo_next = 1" "paused demo_next = False"
  "currentBatchId demo_next = 2" "batchOpen demo_next"
  "providers demo_next 2" "cooldownSeconds demo_next = 60"
  "lastSubmissionTime demo_next 2 = 200" "totalBonds demo_next = 2"
  "batches demo_next 1 = \<lparr>totalEncryptedAmount = 350, bondCount = 2, finalized = True\<rparr>"
  "batches demo_next 2 = empty_batch"
  "decryptionContexts demo_next 7 = decryptionContexts demo_requested 7"
  by (simp_all add: demo_next_def apply_txn_def openBatch_def emit_def checked_add_def
      demo_requested_fields empty_batch_def)

lemma demo_later_fields:
  "currentBatchId demo_later = 2" "batchOpen demo_later"
  "batches demo_later 1 = \<lparr>totalEncryptedAmount = 350, bondCount = 2, finalized = True\<rparr>"
  "batches demo_later 2 = \<lparr>totalEncryptedAmount = 5, bondCount = 1, finalized = False\<rparr>"
  "decryptionContexts demo_later 7 = decryptionContexts demo_requested 7"
  by (simp_all add: demo_later_def apply_txn_def submitBond_def initIfNeeded_same emit_def
      checked_add_def demo_next_fields empty_batch_def plain_prims_def Let_def)

lemma demo_later_run:
  "run plain_prims 9 demo_requested [Txn 1 600 OpenBatch, Txn 2 700 (SubmitBond 5 5)] = demo_later"
  by (simp add: run_def demo_later_def demo_next_def)

lemma demo_mixed_steps:
  "\<not> isl (exec plain_prims 9 (Txn 2 100 (SubmitBond 100 12)) demo_open)"
  "isl (exec plain_prims 9 (Txn 2 120 (SubmitBond 7 12)) demo_one)"
  "\<not> isl (exec plain_prims 9 (Txn 2 200 (SubmitBond 250 12)) demo_one)"
  "isl (exec plain_prims 9 (Txn 2 400 (SubmitBond 9 12)) demo_closed)"
  by (simp_all add: submitBond_def initIfNeeded_same checked_add_def Let_def
      demo_open_fields demo_one_fields demo_two_fields demo_closed_fields empty_batch_def)

lemma demo_mixed_states:
  "apply_txn plain_prims 9 demo_open (Txn 2 100 (SubmitBond 100 12)) = demo_one"
  "apply_txn plain_prims 9 demo_one (Txn 2 120 (SubmitBond 7 12)) = demo_one"
  "apply_txn plain_prims 9 demo_one (Txn 2 200 (SubmitBond 250 12)) = demo_two"
  "apply_txn plain_prims 9 demo_two (Txn 1 300 CloseBatch) = demo_closed"
proof -
  show "apply_txn plain_prims 9 demo_one (Txn 2 120 (SubmitBond 7 12)) = demo_one"
    using demo_mixed_steps(2)
    by (cases "exec plain_prims 9 (Txn 2 120 (SubmitBond 7 12)) demo_one")
      (simp_all add: apply_txn_def del: exec.simps)
qed (simp_all add: demo_one_def demo_two_def demo_closed_def)

lemma demo_mixed_accepted: "accepted plain_prims 9 1 demo_open demo_mixed = [100, 250]"
  by (simp add: demo_mixed_def demo_mixed_states demo_mixed_steps demo_open_fields
      demo_one_fields demo_two_fields demo_closed_fields del: exec.simps)

section \<open>Traces and invariants\<close>

text \<open>The processed flag of a context is cleared only by a request that is given its id.\<close>

lemma processed_step:
  "processed (decryptionContexts s rid) \<Longrightarrow> \<not> issues rid x \<Longrightarrow>
   processed (decryptionContexts (apply_txn P self s x) rid)"
  apply (cases x)
  subgoal for a t c
    by (cases c)
      (auto simp: apply_txn_def op_defs Let_def split: sum.splits if_splits option.splits)
  done

lemma processed_run:
  "processed (decryptionContexts s rid) \<Longrightarrow> \<forall>x\<in>set xs. \<not> issues rid x \<Longrightarrow>
   processed (decryptionContexts (run P self s xs) rid)"
  by (induction xs arbitrary: s) (auto simp: run_Nil run_Cons processed_step)

text \<open>A frozen batch stays frozen and is not written.\<close>

lemma frozen_step:
  "frozen s b \<Longrightarrow>
   frozen (apply_txn P self s x) b \<and> batches (apply_txn P self s x) b = batches s b"
  apply (cases x)
  subgoal for a t c
    by (cases c)
      (auto simp: apply_txn_def op_defs frozen_def Let_def dest!: checked_add_one_less
        split: sum.splits if_splits option.splits)
  done

lemma frozen_run:
  "frozen s b \<Longrightarrow> frozen (run P self s xs) b \<and> batches (run P self s xs) b = batches s b"
proof (induction xs arbitrary: s)
  case Nil
  then show ?case by (simp add: run_Nil)
next
  case (Cons x xs)
  from frozen_step [OF Cons.prems, of P self x]
  have f: "frozen (apply_txn P self s x) b"
    and e: "batches (apply_txn P self s x) b = batches s b"
    by simp_all
  from Cons.IH [OF f] e show ?case
    by (simp add: run_Cons)
qed

text \<open>The invariant holds after the constructor and every transaction keeps it.\<close>

lemma inv_constructor: "inv (constructor d)"
  by (simp add: inv_def constructor_def emit_def empty_batch_def)

lemma inv_step: "inv s \<Longrightarrow> inv (apply_txn P self s x)"
  apply (cases x)
  subgoal for a t c
    by (cases c)
      (auto simp: apply_txn_def op_defs inv_def empty_batch_def Let_def
        dest!: checked_add_one_less split: sum.splits if_splits option.splits)
  done

lemma inv_run: "inv s \<Longrightarrow> inv (run P self s xs)"
  by (induction xs arbitrary: s) (auto simp: run_Nil run_Cons inv_step)

lemma inv_reachable: "inv (run P self (constructor d) xs)"
  by (rule inv_run) (rule inv_constructor)

lemma finalized_frozen: "inv s \<Longrightarrow> finalized (batches s b) \<Longrightarrow> frozen s b"
  unfolding inv_def frozen_def empty_batch_def
  by (metis Batch.select_convs(3) linorder_not_le)

lemma aggregate_change:
  assumes "inv s"
    and "totalEncryptedAmount (batches (apply_txn P self s x) b) \<noteq> totalEncryptedAmount (batches s b)
         \<or> bondCount (batches (apply_txn P self s x) b) \<noteq> bondCount (batches s b)"
  shows "submitted_amount x \<noteq> None \<and> batchOpen s \<and> b = currentBatchId s"
  using assms
  apply (cases x)
  subgoal for a t c
    by (cases c)
      (auto simp: apply_txn_def op_defs inv_def empty_batch_def Let_def
        dest!: checked_add_one_less split: sum.splits if_splits option.splits)
  done

lemma openBatch_fresh:
  assumes "inv s" and "openBatch a s = Inr s'"
  shows "currentBatchId s < currentBatchId s' \<and> batches s (currentBatchId s') = empty_batch"
  using assms
  by (auto simp: openBatch_def inv_def emit_def dest!: checked_add_one_less
      split: sum.splits if_splits)

text \<open>A context that no request was given stays the zero context.\<close>

lemma unissued_step:
  assumes "inv s" and "decryptionContexts s rid = empty_context"
    and "\<not> issues rid x" and "commitment P self empty_batch \<noteq> 0"
  shows "decryptionContexts (apply_txn P self s x) rid = empty_context"
  using assms
  apply (cases x)
  subgoal for a t c
    by (cases c)
      (auto simp: apply_txn_def op_defs inv_def empty_context_def commitment_def Let_def
        split: sum.splits if_splits option.splits)
  done

lemma unissued_run:
  assumes "inv s" and "decryptionContexts s rid = empty_context"
    and "\<forall>x\<in>set xs. \<not> issues rid x" and "commitment P self empty_batch \<noteq> 0"
  shows "decryptionContexts (run P self s xs) rid = empty_context"
  using assms
proof (induction xs arbitrary: s)
  case Nil
  then show ?case by (simp add: run_Nil)
next
  case (Cons x xs)
  have "inv (apply_txn P self s x)"
    using Cons.prems(1) by (rule inv_step)
  moreover have "decryptionContexts (apply_txn P self s x) rid = empty_context"
    using Cons.prems by (intro unissued_step) simp_all
  ultimately show ?case
    using Cons.IH Cons.prems by (simp add: run_Cons)
qed

text \<open>
  One transaction adds to the count and the total of a batch exactly what \<open>accepted\<close> lists
  for it, as long as the batch is the open one or is frozen.
\<close>

lemma aggregate_step:
  assumes "(batchOpen s \<and> currentBatchId s = b) \<or> frozen s b"
  shows "((batchOpen (apply_txn P self s x) \<and> currentBatchId (apply_txn P self s x) = b)
            \<or> frozen (apply_txn P self s x) b) \<and>
         unat (bondCount (batches (apply_txn P self s x) b)) =
           unat (bondCount (batches s b)) + length (accepted P self b s [x]) \<and>
         totalEncryptedAmount (batches (apply_txn P self s x) b) =
           foldl (fhe_add P) (totalEncryptedAmount (batches s b)) (accepted P self b s [x])"
  using assms
  apply (cases x)
  subgoal for a t c
    by (cases c)
      (auto simp: apply_txn_def op_defs frozen_def Let_def
        dest!: checked_add_one intro: le_checked_succ split: sum.splits if_splits option.splits)
  done

lemma accepted_Cons:
  "accepted P self b s (x # xs) = accepted P self b s [x] @ accepted P self b (apply_txn P self s x) xs"
  by simp

lemma aggregate_run:
  assumes "(batchOpen s \<and> currentBatchId s = b) \<or> frozen s b"
  shows "unat (bondCount (batches (run P self s xs) b)) =
           unat (bondCount (batches s b)) + length (accepted P self b s xs) \<and>
         totalEncryptedAmount (batches (run P self s xs) b) =
           foldl (fhe_add P) (totalEncryptedAmount (batches s b)) (accepted P self b s xs)"
  using assms
proof (induction xs arbitrary: s)
  case Nil
  then show ?case by (simp add: run_Nil)
next
  case (Cons x xs)
  let ?s' = "apply_txn P self s x"
  from aggregate_step [OF Cons.prems, of P self x]
  have st: "(batchOpen ?s' \<and> currentBatchId ?s' = b) \<or> frozen ?s' b"
    and cnt: "unat (bondCount (batches ?s' b)) =
           unat (bondCount (batches s b)) + length (accepted P self b s [x])"
    and tot: "totalEncryptedAmount (batches ?s' b) =
           foldl (fhe_add P) (totalEncryptedAmount (batches s b)) (accepted P self b s [x])"
    by blast+
  from Cons.IH [OF st] cnt tot show ?case
    by (simp only: run_Cons accepted_Cons [of P self b s x xs] foldl_append length_append) simp
qed

lemma requestBatchDecryption_Inr:
  assumes "requestBatchDecryption P self a t rid bid s0 = Inr s1"
  shows "finalized (batches s0 bid) \<and> batches s1 = batches s0 \<and>
         currentBatchId s1 = currentBatchId s0 \<and> batchOpen s1 = batchOpen s0 \<and>
         decryptionContexts s1 rid =
           \<lparr>batchId = bid, stateHash = commitment P self (batches s0 bid), processed = False\<rparr>"
  using assms
  by (auto simp: requestBatchDecryption_def emit_def commitment_def Let_def
      split: sum.splits if_splits)

section \<open>The decryption callback\<close>




text \<open>
  Claim C4. When the context passes the replay check and the state-hash check and the proof
  fails verification, \<^verbatim>\<open>myCallback\<close> reverts with \<open>InvalidProof\<close>: the transaction leaves the
  state as it was, and the processed flag of the context is still false.
\<close>

theorem invalid_proof_reverts:
  assumes "\<not> processed (decryptionContexts s rid)"
    and "commitment P self (batches s (batchId (decryptionContexts s rid))) = stateHash (decryptionContexts s rid)"
    and "\<not> fhe_checkSignatures P rid cleartexts pf"
  shows "myCallback P self rid cleartexts pf s = Inl InvalidProof \<and>
         apply_txn P self s (Txn a t (MyCallback rid cleartexts pf)) = s \<and>
         \<not> processed (decryptionContexts (apply_txn P self s (Txn a t (MyCallback rid cleartexts pf))) rid)"
  using assms by (simp add: myCallback_def apply_txn_def commitment_def)

text \<open>On the scenario: the proof [0] is rejected and the state stays.\<close>

theorem invalid_proof_reverts_witness:
  "\<not> processed (decryptionContexts demo_requested 7) \<and>
   commitment plain_prims 9 (batches demo_requested (batchId (decryptionContexts demo_requested 7)))
     = stateHash (decryptionContexts demo_requested 7) \<and>
   \<not> fhe_checkSignatures plain_prims 7 demo_cleartexts [0] \<and>
   myCallback plain_prims 9 7 demo_cleartexts [0] demo_requested = Inl InvalidProof \<and>
   apply_txn plain_prims 9 demo_requested (Txn 5 500 (MyCallback 7 demo_cleartexts [0])) = demo_requested"
proof -
  have a: "\<not> processed (decryptionContexts demo_requested 7)"
    by (simp add: demo_requested_fields)
  have b: "commitment plain_prims 9 (batches demo_requested (batchId (decryptionContexts demo_requested 7)))
     = stateHash (decryptionContexts demo_requested 7)"
    by (simp add: demo_requested_fields commitment_plain)
  have c: "\<not> fhe_checkSignatures plain_prims 7 demo_cleartexts [0]"
    by (simp add: plain_prims_def)
  from invalid_proof_reverts [OF a b c, of 5 500] a b c show ?thesis
    by simp
qed

text \<open>
  Claim C1 as stated fails when the oracle gives a later request an id it has given before:
  \<^verbatim>\<open>requestBatchDecryption\<close> overwrites the context of the id, processed flag included. In
  the scenario, after the callback for request 7 completed, a second request for batch 1 is
  given the id 7 again, and the same callback completes a second time.
\<close>

theorem reissued_id_counterexample:
  "run plain_prims 9 (constructor 1)
     (demo_trace @ [Txn 5 500 (MyCallback 7 demo_cleartexts [1]),
                    Txn 1 900 (RequestBatchDecryption 1 7)]) = demo_reissued \<and>
   myCallback plain_prims 9 7 demo_cleartexts [1] demo_requested = Inr demo_completed \<and>
   processed (decryptionContexts demo_completed 7) \<and>
   \<not> processed (decryptionContexts demo_reissued 7) \<and>
   myCallback plain_prims 9 7 demo_cleartexts [1] demo_reissued \<noteq> Inl ReplayAttempt \<and>
   \<not> isl (myCallback plain_prims 9 7 demo_cleartexts [1] demo_reissued) \<and>
   processed (decryptionContexts
     (projr (myCallback plain_prims 9 7 demo_cleartexts [1] demo_reissued)) 7)"
proof -
  have again: "myCallback plain_prims 9 7 demo_cleartexts [1] demo_reissued =
      Inr (emit (DecryptionCompleted 7 1 350 2)
        (demo_reissued\<lparr>decryptionContexts := (decryptionContexts demo_reissued)(7 :=
           (decryptionContexts demo_reissued 7)\<lparr>processed := True\<rparr>)\<rparr>))"
    by (simp add: myCallback_def demo_reissued_fields batchCts_plain plain_signatures
        demo_cleartexts_decode)
  have "\<not> processed (decryptionContexts demo_reissued 7)"
    by (simp add: demo_reissued_fields)
  moreover have "processed (decryptionContexts
      (projr (myCallback plain_prims 9 7 demo_cleartexts [1] demo_reissued)) 7)"
    by (simp add: again emit_def)
  ultimately show ?thesis
    by (simp add: again demo_reissued_run demo_completed_result demo_completed_fields)
qed

text \<open>
  Claim C1, amended. A \<^verbatim>\<open>myCallback\<close> that completes sets the processed flag of its
  context. From then on, through every sequence of transactions in which no
  \<^verbatim>\<open>requestBatchDecryption\<close> is given the same request id again, the flag stays set and
  every \<^verbatim>\<open>myCallback\<close> with that request id reverts with \<open>ReplayAttempt\<close>, for any cleartexts
  and any proof.
\<close>

theorem callback_at_most_once:
  assumes "myCallback P self rid cleartexts pf s = Inr s1"
    and "\<forall>x\<in>set xs. \<not> issues rid x"
  shows "processed (decryptionContexts s1 rid) \<and>
         processed (decryptionContexts (run P self s1 xs) rid) \<and>
         myCallback P self rid cleartexts' pf' (run P self s1 xs) = Inl ReplayAttempt"
proof -
  from assms(1) have p: "processed (decryptionContexts s1 rid)"
    by (auto simp: myCallback_def emit_def Let_def split: if_splits option.splits)
  from processed_run [OF p assms(2)]
  have q: "processed (decryptionContexts (run P self s1 xs) rid)" .
  from p q show ?thesis
    by (simp add: myCallback_def)
qed

text \<open>On the scenario: after the callback completed and three more transactions, a replay reverts.\<close>

theorem callback_at_most_once_witness:
  "myCallback plain_prims 9 7 demo_cleartexts [1] demo_requested = Inr demo_completed \<and>
   \<not> issues 7 (Txn 1 600 OpenBatch) \<and>
   \<not> issues 7 (Txn 2 700 (SubmitBond 5 5)) \<and>
   \<not> issues 7 (Txn 1 800 (RequestBatchDecryption 1 8)) \<and>
   processed (decryptionContexts demo_completed 7) \<and>
   myCallback plain_prims 9 7 demo_cleartexts [1]
     (run plain_prims 9 demo_completed
        [Txn 1 600 OpenBatch, Txn 2 700 (SubmitBond 5 5), Txn 1 800 (RequestBatchDecryption 1 8)])
     = Inl ReplayAttempt"
proof -
  have ok: "myCallback plain_prims 9 7 demo_cleartexts [1] demo_requested = Inr demo_completed"
    by (rule demo_completed_result)
  have fresh: "\<forall>x\<in>set [Txn 1 600 OpenBatch, Txn 2 700 (SubmitBond 5 5),
      Txn 1 800 (RequestBatchDecryption 1 8)]. \<not> issues 7 x"
    by simp
  from callback_at_most_once [OF ok fresh, of demo_cleartexts "[1]"] ok show ?thesis
    by simp
qed

section \<open>The decryption request\<close>

text \<open>
  Claim C6. A \<^verbatim>\<open>requestBatchDecryption\<close> by the owner, while the contract is not paused and the
  caller's decryption cooldown has elapsed, reverts with \<open>InvalidBatch\<close> exactly when the batch
  id is 0, or greater than \<open>currentBatchId\<close>, or the batch is not finalized. Otherwise it
  succeeds and stores, for the request id it was given, a context with the batch id, the
  commitment of the batch and the processed flag false.
\<close>

theorem requestBatchDecryption_InvalidBatch_iff:
  assumes "a = owner s" and "\<not> paused s"
    and "unat (lastDecryptionRequestTime s a) + unat (cooldownSeconds s) \<le> unat now"
  shows "(requestBatchDecryption P self a now issued bid s = Inl InvalidBatch
            \<longleftrightarrow> bid = 0 \<or> bid > currentBatchId s \<or> \<not> finalized (batches s bid)) \<and>
         (\<not> (bid = 0 \<or> bid > currentBatchId s \<or> \<not> finalized (batches s bid)) \<longrightarrow>
            (\<exists>s'. requestBatchDecryption P self a now issued bid s = Inr s' \<and>
                  decryptionContexts s' issued =
                    \<lparr>batchId = bid, stateHash = commitment P self (batches s bid), processed = False\<rparr>))"
proof -
  have lt: "unat (lastDecryptionRequestTime s a) + unat (cooldownSeconds s) < 2 ^ 256"
    using assms(3) unsigned_less [of now, where 'a = nat] by simp
  have ge: "\<not> now < lastDecryptionRequestTime s a + cooldownSeconds s"
    using assms(3) lt by (simp add: word_less_nat_alt unat_word_ariths)
  show ?thesis
    using assms(1,2) lt ge
    by (simp add: requestBatchDecryption_def checked_add_def emit_def commitment_def)
qed

text \<open>On the scenario: batch ids 0 and 2 are rejected, batch 1 is accepted.\<close>

theorem requestBatchDecryption_InvalidBatch_iff_witness:
  "(1::address) = owner demo_closed \<and> \<not> paused demo_closed \<and>
   unat (lastDecryptionRequestTime demo_closed 1) + unat (cooldownSeconds demo_closed) \<le> unat (400::uint256) \<and>
   requestBatchDecryption plain_prims 9 1 400 7 0 demo_closed = Inl InvalidBatch \<and>
   requestBatchDecryption plain_prims 9 1 400 7 2 demo_closed = Inl InvalidBatch \<and>
   requestBatchDecryption plain_prims 9 1 400 7 1 demo_closed \<noteq> Inl InvalidBatch \<and>
   decryptionContexts (projr (requestBatchDecryption plain_prims 9 1 400 7 1 demo_closed)) 7 =
     \<lparr>batchId = 1, stateHash = commitment plain_prims 9 (batches demo_closed 1), processed = False\<rparr>"
proof -
  have a: "(1::address) = owner demo_closed"
    and b: "\<not> paused demo_closed"
    and c: "unat (lastDecryptionRequestTime demo_closed 1) + unat (cooldownSeconds demo_closed)
              \<le> unat (400::uint256)"
    by (simp_all add: demo_closed_fields)
  note w = requestBatchDecryption_InvalidBatch_iff [OF a b c, where P = plain_prims and self = 9
      and issued = 7]
  have zero: "requestBatchDecryption plain_prims 9 1 400 7 0 demo_closed = Inl InvalidBatch"
    using w [where bid = 0] by simp
  have beyond: "requestBatchDecryption plain_prims 9 1 400 7 2 demo_closed = Inl InvalidBatch"
    using w [where bid = 2] by (simp add: demo_closed_fields)
  have ok: "requestBatchDecryption plain_prims 9 1 400 7 1 demo_closed \<noteq> Inl InvalidBatch \<and>
     decryptionContexts (projr (requestBatchDecryption plain_prims 9 1 400 7 1 demo_closed)) 7 =
     \<lparr>batchId = 1, stateHash = commitment plain_prims 9 (batches demo_closed 1), processed = False\<rparr>"
    using w [where bid = 1] by (auto simp: demo_closed_fields)
  show ?thesis
    using a b c zero beyond ok by simp
qed

text \<open>
  Claim C3. Let \<open>s1\<close> be the state a successful \<^verbatim>\<open>requestBatchDecryption\<close> for batch \<open>bid\<close>
  leaves and \<open>s2\<close> the state in which the callback for its request id arrives, the context
  still as the request stored it. If the total or the count of the batch differs between
  the two, the recomputed hash differs from the stored one and \<^verbatim>\<open>myCallback\<close> reverts with
  \<open>StateMismatch\<close>; if both are the same, the recomputed hash is the stored one and the state
  check passes. The primitives are parameters, and the hypotheses are on them alone:
  \<^verbatim>\<open>FHE.toBytes32\<close> and \<^verbatim>\<open>FHE.asEuint32\<close> are injective, and \<^verbatim>\<open>keccak256\<close> does not collide on
  the two byte strings hashed at request time and at callback time. That the code's list of
  ciphertexts and its ABI encoding keep totals and counts apart is proved
  (\<open>commitment_separates\<close>). No sequence of transactions of the contract itself, a later batch
  included, changes the requested batch.
\<close>

theorem state_hash_check:
  assumes "requestBatchDecryption P self a t rid bid s0 = Inr s1"
    and "decryptionContexts s2 rid = decryptionContexts s1 rid"
    and "inj (fhe_toBytes32 P)"
    and "inj (fhe_asEuint32 P)"
    and "inj_on (keccak256 P)
           {abi_encode_cts (batchCts P (batches s2 bid)) self,
            abi_encode_cts (batchCts P (batches s1 bid)) self}"
  shows "(totalEncryptedAmount (batches s2 bid) \<noteq> totalEncryptedAmount (batches s1 bid) \<or>
          bondCount (batches s2 bid) \<noteq> bondCount (batches s1 bid) \<longrightarrow>
            commitment P self (batches s2 bid) \<noteq> stateHash (decryptionContexts s2 rid) \<and>
            myCallback P self rid cleartexts pf s2 = Inl StateMismatch) \<and>
         (totalEncryptedAmount (batches s2 bid) = totalEncryptedAmount (batches s1 bid) \<and>
          bondCount (batches s2 bid) = bondCount (batches s1 bid) \<longrightarrow>
            commitment P self (batches s2 bid) = stateHash (decryptionContexts s2 rid) \<and>
            myCallback P self rid cleartexts pf s2 \<noteq> Inl StateMismatch) \<and>
         (\<forall>d pre xs. s0 = run P self (constructor d) pre \<longrightarrow>
            batches (run P self s1 xs) bid = batches s1 bid)"
proof -
  note r = requestBatchDecryption_Inr [OF assms(1)]
  from r assms(2) have ctx: "decryptionContexts s2 rid =
      \<lparr>batchId = bid, stateHash = commitment P self (batches s1 bid), processed = False\<rparr>"
    by simp
  have changed: "commitment P self (batches s2 bid) \<noteq> stateHash (decryptionContexts s2 rid) \<and>
      myCallback P self rid cleartexts pf s2 = Inl StateMismatch"
    if "totalEncryptedAmount (batches s2 bid) \<noteq> totalEncryptedAmount (batches s1 bid) \<or>
        bondCount (batches s2 bid) \<noteq> bondCount (batches s1 bid)"
  proof -
    from that commitment_separates [OF assms(3,4,5)]
    have "commitment P self (batches s2 bid) \<noteq> commitment P self (batches s1 bid)"
      by blast
    then show ?thesis
      by (simp add: myCallback_def ctx commitment_def)
  qed
  have same: "commitment P self (batches s2 bid) = stateHash (decryptionContexts s2 rid) \<and>
      myCallback P self rid cleartexts pf s2 \<noteq> Inl StateMismatch"
    if "totalEncryptedAmount (batches s2 bid) = totalEncryptedAmount (batches s1 bid) \<and>
        bondCount (batches s2 bid) = bondCount (batches s1 bid)"
  proof -
    from that have "commitment P self (batches s2 bid) = commitment P self (batches s1 bid)"
      by (intro commitment_cong) simp_all
    then show ?thesis
      by (simp add: myCallback_def ctx commitment_def split: option.splits)
  qed
  have stable: "batches (run P self s1 xs) bid = batches s1 bid"
    if "s0 = run P self (constructor d) pre" for d pre xs
  proof -
    have "inv s0"
      unfolding that by (rule inv_reachable)
    with r have "frozen s0 bid"
      by (intro finalized_frozen) simp_all
    with r have "frozen s1 bid"
      by (simp add: frozen_def)
    from frozen_run [OF this] show ?thesis
      by simp
  qed
  from changed same stable show ?thesis
    by blast
qed

text \<open>
  On the scenario: the tampered total is caught, the tampered count is caught; after a later
  batch was opened and filled the requested batch is as it was and the check passes.
\<close>

theorem state_hash_check_witness:
  "requestBatchDecryption plain_prims 9 1 400 7 1 demo_closed = Inr demo_requested \<and>
   inj (fhe_toBytes32 plain_prims) \<and> inj (fhe_asEuint32 plain_prims) \<and>
   decryptionContexts demo_tampered 7 = decryptionContexts demo_requested 7 \<and>
   inj_on (keccak256 plain_prims)
     {abi_encode_cts (batchCts plain_prims (batches demo_tampered 1)) 9,
      abi_encode_cts (batchCts plain_prims (batches demo_requested 1)) 9} \<and>
   totalEncryptedAmount (batches demo_tampered 1) \<noteq> totalEncryptedAmount (batches demo_requested 1) \<and>
   myCallback plain_prims 9 7 demo_cleartexts [1] demo_tampered = Inl StateMismatch \<and>
   decryptionContexts demo_tampered_count 7 = decryptionContexts demo_requested 7 \<and>
   inj_on (keccak256 plain_prims)
     {abi_encode_cts (batchCts plain_prims (batches demo_tampered_count 1)) 9,
      abi_encode_cts (batchCts plain_prims (batches demo_requested 1)) 9} \<and>
   bondCount (batches demo_tampered_count 1) \<noteq> bondCount (batches demo_requested 1) \<and>
   myCallback plain_prims 9 7 demo_cleartexts [1] demo_tampered_count = Inl StateMismatch \<and>
   decryptionContexts demo_later 7 = decryptionContexts demo_requested 7 \<and>
   inj_on (keccak256 plain_prims)
     {abi_encode_cts (batchCts plain_prims (batches demo_later 1)) 9,
      abi_encode_cts (batchCts plain_prims (batches demo_requested 1)) 9} \<and>
   totalEncryptedAmount (batches demo_later 1) = totalEncryptedAmount (batches demo_requested 1) \<and>
   bondCount (batches demo_later 1) = bondCount (batches demo_requested 1) \<and>
   bondCount (batches demo_later 2) = 1 \<and>
   myCallback plain_prims 9 7 demo_cleartexts [1] demo_later \<noteq> Inl StateMismatch"
proof -
  have k1: "inj_on (keccak256 plain_prims)
     {abi_encode_cts (batchCts plain_prims (batches demo_tampered 1)) 9,
      abi_encode_cts (batchCts plain_prims (batches demo_requested 1)) 9}"
    using plain_no_collision(1)
    by (simp add: batchCts_plain demo_tampered_fields demo_requested_fields insert_commute)
  have k2: "inj_on (keccak256 plain_prims)
     {abi_encode_cts (batchCts plain_prims (batches demo_tampered_count 1)) 9,
      abi_encode_cts (batchCts plain_prims (batches demo_requested 1)) 9}"
    using plain_no_collision(2)
    by (simp add: batchCts_plain demo_tampered_count_fields demo_requested_fields insert_commute)
  have k3: "inj_on (keccak256 plain_prims)
     {abi_encode_cts (batchCts plain_prims (batches demo_later 1)) 9,
      abi_encode_cts (batchCts plain_prims (batches demo_requested 1)) 9}"
    by (simp add: demo_later_fields demo_requested_fields)
  have total_caught: "myCallback plain_prims 9 7 demo_cleartexts [1] demo_tampered = Inl StateMismatch"
    using state_hash_check [OF demo_requested_result demo_tampered_fields(2) plain_inj k1,
        of demo_cleartexts "[1]"]
    by (simp add: demo_tampered_fields demo_requested_fields)
  have count_caught: "myCallback plain_prims 9 7 demo_cleartexts [1] demo_tampered_count = Inl StateMismatch"
    using state_hash_check [OF demo_requested_result demo_tampered_count_fields(2) plain_inj k2,
        of demo_cleartexts "[1]"]
    by (simp add: demo_tampered_count_fields demo_requested_fields)
  have passes: "myCallback plain_prims 9 7 demo_cleartexts [1] demo_later \<noteq> Inl StateMismatch"
    using state_hash_check [OF demo_requested_result demo_later_fields(5) plain_inj k3,
        of demo_cleartexts "[1]"]
    by (simp add: demo_later_fields demo_requested_fields)
  from k1 k2 k3 total_caught count_caught passes show ?thesis
    by (simp add: demo_requested_result plain_inj demo_tampered_fields
        demo_tampered_count_fields demo_later_fields demo_requested_fields)
qed

text \<open>
  Claim C10. After any trace from the constructor in which no \<^verbatim>\<open>requestBatchDecryption\<close> was
  given the id \<open>rid\<close>, the context of \<open>rid\<close> is the zero context (batch 0, hash 0, not
  processed), batch 0 is unwritten, and \<^verbatim>\<open>myCallback\<close> for \<open>rid\<close> reverts with \<open>StateMismatch\<close>
  for every cleartexts and proof, before the proof is looked at. The hash is a parameter:
  the claim's step that the hash of batch 0's ciphertext list is not zero is the hypothesis.
\<close>

theorem unissued_request_rejected:
  assumes "\<forall>x\<in>set xs. \<not> issues rid x"
    and "commitment P self empty_batch \<noteq> 0"
  shows "decryptionContexts (run P self (constructor d) xs) rid = empty_context \<and>
         batches (run P self (constructor d) xs) 0 = empty_batch \<and>
         myCallback P self rid cleartexts pf (run P self (constructor d) xs) = Inl StateMismatch"
proof -
  let ?s = "run P self (constructor d) xs"
  have "decryptionContexts (constructor d) rid = empty_context"
    by (simp add: constructor_def emit_def empty_context_def)
  with inv_constructor have c: "decryptionContexts ?s rid = empty_context"
    using assms by (rule unissued_run)
  have "inv ?s"
    by (rule inv_reachable)
  then have z: "batches ?s 0 = empty_batch"
    by (simp add: inv_def)
  from c z assms(2) show ?thesis
    by (simp add: myCallback_def empty_context_def commitment_def)
qed

text \<open>On the scenario: request 8 was never issued, and a callback for it with a valid proof reverts.\<close>

theorem unissued_request_rejected_witness:
  "\<not> issues 8 (Txn 1 100 (AddProvider 2)) \<and> \<not> issues 8 (Txn 1 100 OpenBatch) \<and>
   \<not> issues 8 (Txn 2 100 (SubmitBond 100 12)) \<and> \<not> issues 8 (Txn 2 200 (SubmitBond 250 12)) \<and>
   \<not> issues 8 (Txn 1 300 CloseBatch) \<and> \<not> issues 8 (Txn 1 400 (RequestBatchDecryption 1 7)) \<and>
   commitment plain_prims 9 empty_batch \<noteq> 0 \<and>
   fhe_checkSignatures plain_prims 8 demo_cleartexts [1] \<and>
   decryptionContexts demo_requested 8 = empty_context \<and>
   myCallback plain_prims 9 8 demo_cleartexts [1] demo_requested = Inl StateMismatch"
proof -
  have fresh: "\<forall>x\<in>set demo_trace. \<not> issues 8 x"
    by (simp add: demo_trace_def)
  have nonzero: "commitment plain_prims 9 empty_batch \<noteq> 0"
    by (simp add: commitment_plain empty_batch_def hash_empty_batch)
  from unissued_request_rejected [OF fresh nonzero, of 1 demo_cleartexts "[1]"]
  have "decryptionContexts demo_requested 8 = empty_context \<and>
      myCallback plain_prims 9 8 demo_cleartexts [1] demo_requested = Inl StateMismatch"
    by (simp only: demo_trace_run)
  with nonzero show ?thesis
    by (simp add: plain_signatures)
qed

section \<open>Batches and submissions\<close>

text \<open>
  Claim C2. From the state that a successful \<^verbatim>\<open>openBatch\<close> leaves, after any sequence of
  transactions, the bond count of the batch it opened is the number of \<^verbatim>\<open>submitBond\<close> calls
  that succeeded while that batch was the current one, and its total is the left fold of the
  homomorphic addition over the encrypted amounts of exactly those calls, in order, starting
  from the zero aggregate.
\<close>

theorem batch_aggregate_is_fold:
  assumes "openBatch a s0 = Inr s1"
  shows "unat (bondCount (batches (run P self s1 xs) (currentBatchId s1))) =
           length (accepted P self (currentBatchId s1) s1 xs) \<and>
         totalEncryptedAmount (batches (run P self s1 xs) (currentBatchId s1)) =
           foldl (fhe_add P) 0 (accepted P self (currentBatchId s1) s1 xs)"
proof -
  from assms have o: "batchOpen s1"
    and c: "bondCount (batches s1 (currentBatchId s1)) = 0"
    and t: "totalEncryptedAmount (batches s1 (currentBatchId s1)) = 0"
    by (auto simp: openBatch_def emit_def split: sum.splits if_splits)
  from o have "(batchOpen s1 \<and> currentBatchId s1 = currentBatchId s1) \<or> frozen s1 (currentBatchId s1)"
    by simp
  from aggregate_run [OF this, of P self xs] c t show ?thesis
    by simp
qed

text \<open>On the scenario with the two reverting submissions: two bonds counted, total 350.\<close>

theorem batch_aggregate_is_fold_witness:
  "openBatch 1 demo_registered = Inr demo_open \<and>
   currentBatchId demo_open = 1 \<and>
   accepted plain_prims 9 1 demo_open demo_mixed = [100, 250] \<and>
   unat (bondCount (batches (run plain_prims 9 demo_open demo_mixed) 1)) = 2 \<and>
   totalEncryptedAmount (batches (run plain_prims 9 demo_open demo_mixed) 1) = 350"
proof -
  have f: "fhe_add plain_prims (fhe_add plain_prims 0 100) 250 = 350"
    by (simp add: plain_prims_def)
  from batch_aggregate_is_fold [OF demo_open_result, of plain_prims 9 demo_mixed]
  have "unat (bondCount (batches (run plain_prims 9 demo_open demo_mixed) 1)) = length [100::uint256, 250] \<and>
      totalEncryptedAmount (batches (run plain_prims 9 demo_open demo_mixed) 1) =
        foldl (fhe_add plain_prims) 0 [100, 250]"
    by (simp only: demo_open_fields demo_mixed_accepted)
  then show ?thesis
    by (simp add: f demo_open_result demo_open_fields demo_mixed_accepted)
qed

text \<open>
  Claim C7. In a state the contract can reach, a batch that \<^verbatim>\<open>closeBatch\<close> has finalized keeps
  its total, its count and its flag through every later sequence of transactions. In every
  later state a transaction changes the total or the count of a batch only if it is a
  \<^verbatim>\<open>submitBond\<close>, a batch is open, and the batch changed is the current one, which is not the
  finalized one; and an \<^verbatim>\<open>openBatch\<close> that succeeds moves to a strictly larger id, above the
  finalized batch, whose slot has never been written.
\<close>

theorem finalized_batch_immutable:
  assumes "s = run P self (constructor d) pre"
    and "finalized (batches s b)"
  shows "batches (run P self s post) b = batches s b \<and>
         (\<forall>x b'. totalEncryptedAmount (batches (apply_txn P self (run P self s post) x) b')
                    \<noteq> totalEncryptedAmount (batches (run P self s post) b') \<or>
                  bondCount (batches (apply_txn P self (run P self s post) x) b')
                    \<noteq> bondCount (batches (run P self s post) b') \<longrightarrow>
                  submitted_amount x \<noteq> None \<and> batchOpen (run P self s post) \<and>
                  b' = currentBatchId (run P self s post) \<and> b' \<noteq> b) \<and>
         (\<forall>a u. openBatch a (run P self s post) = Inr u \<longrightarrow>
                  currentBatchId (run P self s post) < currentBatchId u \<and>
                  b < currentBatchId u \<and>
                  batches (run P self s post) (currentBatchId u) = empty_batch)"
proof -
  have i: "inv s"
    unfolding assms(1) by (rule inv_reachable)
  have f: "frozen s b"
    using i assms(2) by (rule finalized_frozen)
  let ?u = "run P self s post"
  have iu: "inv ?u"
    using i by (rule inv_run)
  have fu: "frozen ?u b" and eq: "batches ?u b = batches s b"
    using frozen_run [OF f, of P self post] by simp_all
  have change: "submitted_amount x \<noteq> None \<and> batchOpen ?u \<and> b' = currentBatchId ?u \<and> b' \<noteq> b"
    if "totalEncryptedAmount (batches (apply_txn P self ?u x) b') \<noteq> totalEncryptedAmount (batches ?u b')
        \<or> bondCount (batches (apply_txn P self ?u x) b') \<noteq> bondCount (batches ?u b')"
    for x b'
    using aggregate_change [OF iu that] fu by (auto simp: frozen_def)
  have fresh: "currentBatchId ?u < currentBatchId u \<and> b < currentBatchId u \<and>
      batches ?u (currentBatchId u) = empty_batch"
    if "openBatch a ?u = Inr u" for a u
    using openBatch_fresh [OF iu that] fu by (auto simp: frozen_def)
  from eq change fresh show ?thesis
    by blast
qed

text \<open>On the scenario: batch 1 is as it was after batch 2 was opened and a bond went into it.\<close>

theorem finalized_batch_immutable_witness:
  "demo_requested = run plain_prims 9 (constructor 1) demo_trace \<and>
   finalized (batches demo_requested 1) \<and>
   batches (run plain_prims 9 demo_requested [Txn 1 600 OpenBatch, Txn 2 700 (SubmitBond 5 5)]) 1
     = batches demo_requested 1 \<and>
   batches (run plain_prims 9 demo_requested [Txn 1 600 OpenBatch, Txn 2 700 (SubmitBond 5 5)]) 2
     = \<lparr>totalEncryptedAmount = 5, bondCount = 1, finalized = False\<rparr>"
proof -
  have reach: "demo_requested = run plain_prims 9 (constructor 1) demo_trace"
    by (simp add: demo_trace_run)
  have fin: "finalized (batches demo_requested 1)"
    by (simp add: demo_requested_fields)
  from finalized_batch_immutable [OF reach fin, of "[Txn 1 600 OpenBatch, Txn 2 700 (SubmitBond 5 5)]"]
  have "batches (run plain_prims 9 demo_requested [Txn 1 600 OpenBatch, Txn 2 700 (SubmitBond 5 5)]) 1
      = batches demo_requested 1"
    by blast
  with reach fin show ?thesis
    by (simp add: demo_later_run demo_later_fields)
qed

text \<open>
  Claim C9. \<^verbatim>\<open>_initIfNeeded\<close> returns the state it was given, whatever the handle: it drops the
  ciphertext it wraps. So \<^verbatim>\<open>submitBond\<close> with its two \<^verbatim>\<open>_initIfNeeded\<close> calls and the same
  function without them give the same outcome on every input: the same revert, or the same
  new state with the same events.
\<close>

theorem initIfNeeded_no_effect:
  "initIfNeeded P val s = s \<and>
   submitBond P a now encAmount encMaturity s = submitBond_without_init P a now encAmount encMaturity s"
  by (simp add: submitBond_def submitBond_without_init_def initIfNeeded_same Let_def split: sum.splits)

section \<open>The pause switch\<close>

text \<open>
  Claim C8 as stated fails: \<^verbatim>\<open>myCallback\<close> carries no \<^verbatim>\<open>whenNotPaused\<close> modifier. In the
  scenario, paused after the request, the callback completes and sets the processed flag;
  and \<^verbatim>\<open>openBatch\<close> by an address that is not the owner reverts with \<open>NotOwner\<close>, the
  modifier that comes first.
\<close>

theorem paused_callback_counterexample:
  "paused demo_paused \<and>
   myCallback plain_prims 9 7 demo_cleartexts [1] demo_paused \<noteq> Inl PausedState \<and>
   \<not> isl (myCallback plain_prims 9 7 demo_cleartexts [1] demo_paused) \<and>
   processed (decryptionContexts (projr (myCallback plain_prims 9 7 demo_cleartexts [1] demo_paused)) 7) \<and>
   openBatch 5 demo_paused = Inl NotOwner"
  by (simp add: myCallback_def openBatch_def emit_def demo_paused_fields batchCts_def
      demo_cleartexts_decode plain_prims_def)

text \<open>
  Claim C8, amended. While the contract is paused, \<^verbatim>\<open>openBatch\<close>, \<^verbatim>\<open>closeBatch\<close>,
  \<^verbatim>\<open>requestBatchDecryption\<close> and \<^verbatim>\<open>pause\<close> revert with \<open>NotOwner\<close> for a caller that is not
  the owner and with \<open>PausedState\<close> for the owner; \<^verbatim>\<open>submitBond\<close> reverts with \<open>NotProvider\<close>
  for a caller that is not a provider and with \<open>PausedState\<close> for a provider; none of them
  changes the state. \<^verbatim>\<open>myCallback\<close> is not gated by the pause switch: it never reverts with
  \<open>PausedState\<close>, and it completes while paused when its three checks pass and the
  cleartexts decode. \<^verbatim>\<open>unpause\<close>, \<^verbatim>\<open>transferOwnership\<close>, \<^verbatim>\<open>addProvider\<close>, \<^verbatim>\<open>removeProvider\<close>
  and \<^verbatim>\<open>setCooldownSeconds\<close> (with a non-zero value) succeed for the owner while paused.
\<close>

theorem paused_gates:
  assumes "paused s"
  shows "openBatch a s = Inl (if a \<noteq> owner s then NotOwner else PausedState) \<and>
         closeBatch a s = Inl (if a \<noteq> owner s then NotOwner else PausedState) \<and>
         requestBatchDecryption P self a t issued bid s =
           Inl (if a \<noteq> owner s then NotOwner else PausedState) \<and>
         pause a s = Inl (if a \<noteq> owner s then NotOwner else PausedState) \<and>
         submitBond P a t encAmount encMaturity s =
           Inl (if \<not> providers s a then NotProvider else PausedState) \<and>
         apply_txn P self s (Txn a t OpenBatch) = s \<and>
         apply_txn P self s (Txn a t CloseBatch) = s \<and>
         apply_txn P self s (Txn a t (RequestBatchDecryption bid issued)) = s \<and>
         apply_txn P self s (Txn a t Pause) = s \<and>
         apply_txn P self s (Txn a t (SubmitBond encAmount encMaturity)) = s \<and>
         myCallback P self rid cleartexts pf s \<noteq> Inl PausedState \<and>
         (\<not> processed (decryptionContexts s rid) \<and>
          commitment P self (batches s (batchId (decryptionContexts s rid)))
            = stateHash (decryptionContexts s rid) \<and>
          fhe_checkSignatures P rid cleartexts pf \<and>
          abi_decode_uint32_pair cleartexts = Some (totalAmount, count) \<longrightarrow>
            (\<exists>u. myCallback P self rid cleartexts pf s = Inr u \<and>
                 processed (decryptionContexts u rid) \<and> paused u)) \<and>
         (a = owner s \<longrightarrow>
            \<not> isl (unpause a s) \<and> \<not> paused (projr (unpause a s)) \<and>
            \<not> isl (transferOwnership a newOwner s) \<and>
            \<not> isl (addProvider a p s) \<and>
            \<not> isl (removeProvider a p s) \<and>
            (n \<noteq> 0 \<longrightarrow> \<not> isl (setCooldownSeconds a n s)))"
proof -
  have gates: "openBatch a s = Inl (if a \<noteq> owner s then NotOwner else PausedState)"
    "closeBatch a s = Inl (if a \<noteq> owner s then NotOwner else PausedState)"
    "requestBatchDecryption P self a t issued bid s =
       Inl (if a \<noteq> owner s then NotOwner else PausedState)"
    "pause a s = Inl (if a \<noteq> owner s then NotOwner else PausedState)"
    "submitBond P a t encAmount encMaturity s =
       Inl (if \<not> providers s a then NotProvider else PausedState)"
    using assms
    by (simp_all add: openBatch_def closeBatch_def requestBatchDecryption_def pause_def
        submitBond_def)
  have same: "apply_txn P self s (Txn a t OpenBatch) = s"
    "apply_txn P self s (Txn a t CloseBatch) = s"
    "apply_txn P self s (Txn a t (RequestBatchDecryption bid issued)) = s"
    "apply_txn P self s (Txn a t Pause) = s"
    "apply_txn P self s (Txn a t (SubmitBond encAmount encMaturity)) = s"
    by (simp_all add: apply_txn_def gates)
  have callback: "myCallback P self rid cleartexts pf s \<noteq> Inl PausedState"
    by (simp add: myCallback_def Let_def split: option.splits)
  have completes: "\<exists>u. myCallback P self rid cleartexts pf s = Inr u \<and>
      processed (decryptionContexts u rid) \<and> paused u"
    if "\<not> processed (decryptionContexts s rid) \<and>
        commitment P self (batches s (batchId (decryptionContexts s rid)))
          = stateHash (decryptionContexts s rid) \<and>
        fhe_checkSignatures P rid cleartexts pf \<and>
        abi_decode_uint32_pair cleartexts = Some (totalAmount, count)"
    using that assms by (simp add: myCallback_def commitment_def emit_def)
  have admin: "\<not> isl (unpause a s) \<and> \<not> paused (projr (unpause a s)) \<and>
      \<not> isl (transferOwnership a newOwner s) \<and>
      \<not> isl (addProvider a p s) \<and>
      \<not> isl (removeProvider a p s) \<and>
      (n \<noteq> 0 \<longrightarrow> \<not> isl (setCooldownSeconds a n s))"
    if "a = owner s"
    using that
    by (simp add: unpause_def transferOwnership_def addProvider_def removeProvider_def
        setCooldownSeconds_def emit_def)
  from gates same callback completes admin show ?thesis
    by blast
qed

text \<open>On the paused scenario, for the owner (address 1), the provider (2) and a stranger (5).\<close>

theorem paused_gates_witness:
  "paused demo_paused \<and>
   openBatch 1 demo_paused = Inl PausedState \<and>
   closeBatch 1 demo_paused = Inl PausedState \<and>
   requestBatchDecryption plain_prims 9 1 900 8 1 demo_paused = Inl PausedState \<and>
   submitBond plain_prims 2 900 5 5 demo_paused = Inl PausedState \<and>
   submitBond plain_prims 5 900 5 5 demo_paused = Inl NotProvider \<and>
   closeBatch 5 demo_paused = Inl NotOwner \<and>
   apply_txn plain_prims 9 demo_paused (Txn 2 900 (SubmitBond 5 5)) = demo_paused \<and>
   \<not> isl (myCallback plain_prims 9 7 demo_cleartexts [1] demo_paused) \<and>
   \<not> isl (unpause 1 demo_paused) \<and>
   \<not> isl (setCooldownSeconds 1 30 demo_paused)"
proof -
  have p: "paused demo_paused"
    by (rule demo_paused_fields)
  note w = paused_gates [OF p, where P = plain_prims and self = 9 and t = 900 and issued = 8
      and bid = 1 and encAmount = 5 and encMaturity = 5 and rid = 7
      and cleartexts = demo_cleartexts and pf = "[1]" and totalAmount = 350 and count = 2
      and n = 30 and newOwner = 1 and p = 2]
  have owner_calls: "openBatch 1 demo_paused = Inl PausedState \<and>
      closeBatch 1 demo_paused = Inl PausedState \<and>
      requestBatchDecryption plain_prims 9 1 900 8 1 demo_paused = Inl PausedState \<and>
      \<not> isl (unpause 1 demo_paused) \<and> \<not> isl (setCooldownSeconds 1 30 demo_paused)"
    using w [where a = 1] by (simp add: demo_paused_fields)
  have provider_calls: "submitBond plain_prims 2 900 5 5 demo_paused = Inl PausedState \<and>
      apply_txn plain_prims 9 demo_paused (Txn 2 900 (SubmitBond 5 5)) = demo_paused"
    using w [where a = 2] by (simp add: demo_paused_fields)
  have stranger_calls: "submitBond plain_prims 5 900 5 5 demo_paused = Inl NotProvider \<and>
      closeBatch 5 demo_paused = Inl NotOwner"
    using w [where a = 5] by (simp add: demo_paused_fields)
  have callback: "\<not> isl (myCallback plain_prims 9 7 demo_cleartexts [1] demo_paused)"
    using w [where a = 1]
    by (auto simp: demo_paused_fields commitment_plain plain_signatures demo_cleartexts_decode)
  from p owner_calls provider_calls stranger_calls callback show ?thesis
    by simp
qed

end
